theory Spec2Isabelle
  imports Complex_Main
begin

section \<open>Values exchanged by the price service\<close>

text \<open>
  \<^verbatim>\<open>LogType\<close> is imported from the package \<^verbatim>\<open>logging-format\<close>; the three
  members listed here are the ones \<^verbatim>\<open>app.service.ts\<close> uses.
\<close>

datatype LogType = CB_OPEN | TIMEOUT | ERROR

text \<open>
  JavaScript values that travel through the service: the payload of the database
  service (\<^verbatim>\<open>send.data\<close>), the object literals built by \<^verbatim>\<open>handleRequest\<close>. An
  object literal is the list of its properties, in the order they are written.
  Numbers are the millisecond counts and configuration integers of the service.
\<close>

datatype json =
    JUndefined
  | JNull
  | JBool bool
  | JNumber int
  | JString string
  | JLogType LogType
  | JArray "json list"
  | JObject "(string \<times> json) list"

text \<open>
  The values a promise of this service is rejected with. \<^verbatim>\<open>BrokenCircuitError\<close> and
  \<^verbatim>\<open>TaskCancelledError\<close> are the error classes of the cockatiel library that
  \<^verbatim>\<open>handleRequest\<close> tests with \<^verbatim>\<open>instanceof\<close>; every other rejection is an error
  object (of the HTTP client), of which the service reads \<^verbatim>\<open>error.message\<close> only.
\<close>

datatype js_error =
    BrokenCircuitError
  | TaskCancelledError
  | OtherError (message: string)

datatype 'a settled = Resolved 'a | Rejected js_error

text \<open>
  A promise is described by the time it takes to settle (in ms) and how it settles;
  \<open>None\<close> is a promise that never settles.
\<close>

type_synonym 'a promise = "(int \<times> 'a settled) option"

record AxiosResponse =
  status :: int
  data :: json

text \<open>What a call does to the outside world.\<close>

datatype effect =
    is_Get: Get string
  | is_Post: Post string json
  | is_ConsoleLog: ConsoleLog string

section \<open>Configuration\<close>

text \<open>
  \<^verbatim>\<open>ConfigHandlerService\<close> (\<^verbatim>\<open>config-handler/config-handler.service.ts\<close>): the
  fields \<^verbatim>\<open>AppService\<close> reads. \<^verbatim>\<open>threshold\<close> is a fraction, the other numbers are
  counts and durations in ms.
\<close>

record ConfigHandlerService =
  breakerType :: string
  resetDuration :: int
  timeoutDuration :: int
  monitorDuration :: int
  threshold :: rat
  minimumRequests :: int
  consecutiveFailures :: int
  monitorUrl :: string

section \<open>The circuit breaker and the timeout of the cockatiel library\<close>

text \<open>
  \<^verbatim>\<open>app.service.ts\<close> imports \<^verbatim>\<open>Policy\<close>, \<^verbatim>\<open>ConsecutiveBreaker\<close>, \<^verbatim>\<open>SamplingBreaker\<close>
  and the two error classes from the package cockatiel, whose code is not part of the
  sources. The definitions of this section are therefore written from the
  specification (sections 3 and 4.1 to 4.3), each one marked as such.
\<close>

text \<open>
  Modelled from the spec: the states of the circuit (section 3, \<^verbatim>\<open>CircuitState\<close>); the
  library's own type is missing. An open circuit remembers when it opened.
\<close>

datatype CircuitState = Closed | Open int | HalfOpen

text \<open>
  Modelled from the spec: the two policies (section 4.1) and the outcome records of
  section 3; the library's classes \<^verbatim>\<open>ConsecutiveBreaker\<close> and \<^verbatim>\<open>SamplingBreaker\<close> are
  missing. The consecutive policy is its threshold and its running count of failures in
  a row. The sampling policy is the three options the source passes to it
  (\<^verbatim>\<open>threshold\<close>, \<^verbatim>\<open>duration\<close>, \<^verbatim>\<open>minimumRps\<close>: the failure rate threshold, the
  duration of the sample window and the minimum sample size of the specification) and
  its window: the outcome records, oldest first, each one the time of the outcome and
  whether it was a success.
\<close>

datatype IBreaker =
    ConsecutiveBreaker (cb_threshold: int) (cb_count: int)
  | SamplingBreaker (sb_threshold: rat) (sb_duration: int) (sb_minimumRps: int)
      (sb_window: "(int \<times> bool) list")

text \<open>
  Modelled from the spec: the circuit breaker (section 4.2), a policy with the state of
  the circuit and the duration of the reset timer; the library's class
  \<^verbatim>\<open>CircuitBreakerPolicy\<close> is missing.
\<close>

record CircuitBreakerPolicy =
  halfOpenAfter :: int
  policy :: IBreaker
  state :: CircuitState

text \<open>
  Modelled from the spec: \<^verbatim>\<open>new ConsecutiveBreaker(n)\<close>, missing with the library; no
  failure is counted yet.
\<close>

definition new_ConsecutiveBreaker :: "int \<Rightarrow> IBreaker" where
  "new_ConsecutiveBreaker n = ConsecutiveBreaker n 0"

text \<open>
  Modelled from the spec: \<^verbatim>\<open>Policy.handleAll().circuitBreaker(halfOpenAfter, breaker)\<close>,
  missing with the library; the circuit starts closed (section 4.2).
\<close>

definition circuitBreaker :: "int \<Rightarrow> IBreaker \<Rightarrow> CircuitBreakerPolicy" where
  "circuitBreaker d b = \<lparr>halfOpenAfter = d, policy = b, state = Closed\<rparr>"

text \<open>
  Modelled from the spec: \<^verbatim>\<open>new SamplingBreaker({threshold, duration, minimumRps})\<close>,
  missing with the library; the window is empty.
\<close>

definition new_SamplingBreaker :: "rat \<Rightarrow> int \<Rightarrow> int \<Rightarrow> IBreaker" where
  "new_SamplingBreaker th d m = SamplingBreaker th d m []"

text \<open>
  Modelled from the spec: the pruning of the window (sections 3 and 4.1), missing with
  the library. At time \<open>t\<close> a record stays when it is less than the duration of the
  window old; a record exactly at the boundary is dropped.
\<close>

definition prune :: "int \<Rightarrow> int \<Rightarrow> (int \<times> bool) list \<Rightarrow> (int \<times> bool) list" where
  "prune d t w = filter (\<lambda>r. t - fst r < d) w"

text \<open>
  Modelled from the spec: \<^verbatim>\<open>recordOutcome(true)\<close> of section 4.1 at time \<open>t\<close>, missing
  with the library; a success resets the running count of the consecutive policy to 0,
  and is added to the window of the sampling policy.
\<close>

fun success :: "int \<Rightarrow> IBreaker \<Rightarrow> IBreaker" where
  "success t (ConsecutiveBreaker n c) = ConsecutiveBreaker n 0"
| "success t (SamplingBreaker th d m w) = SamplingBreaker th d m (prune d t (w @ [(t, True)]))"

text \<open>
  Modelled from the spec: \<^verbatim>\<open>recordOutcome(false)\<close> of section 4.1 at time \<open>t\<close>, missing
  with the library; a failure adds one to the running count of the consecutive policy,
  and is added to the window of the sampling policy.
\<close>

fun failure :: "int \<Rightarrow> IBreaker \<Rightarrow> IBreaker" where
  "failure t (ConsecutiveBreaker n c) = ConsecutiveBreaker n (c + 1)"
| "failure t (SamplingBreaker th d m w) = SamplingBreaker th d m (prune d t (w @ [(t, False)]))"

text \<open>
  Modelled from the spec: the policy state cleared when a probe succeeds (section 4.2),
  missing with the library: no failure counted, an empty window.
\<close>

fun clear :: "IBreaker \<Rightarrow> IBreaker" where
  "clear (ConsecutiveBreaker n c) = ConsecutiveBreaker n 0"
| "clear (SamplingBreaker th d m w) = SamplingBreaker th d m []"

text \<open>The failures among the records of a window, and their share of the records.\<close>

definition failures :: "(int \<times> bool) list \<Rightarrow> nat" where
  "failures w = length (filter (\<lambda>r. \<not> snd r) w)"

definition failureRate :: "(int \<times> bool) list \<Rightarrow> rat" where
  "failureRate w = of_nat (failures w) / of_nat (length w)"

text \<open>
  Modelled from the spec: \<^verbatim>\<open>shouldOpen()\<close> of section 4.1, missing with the library.
  The consecutive policy opens once the count reaches the threshold. The sampling policy
  opens when the window holds at least the minimum number of records and the failures
  are at least the threshold's share of them; an empty window never opens.
\<close>

fun shouldOpen :: "IBreaker \<Rightarrow> bool" where
  "shouldOpen (ConsecutiveBreaker n c) = (n \<le> c)"
| "shouldOpen (SamplingBreaker th d m w) =
     (w \<noteq> [] \<and> m \<le> int (length w) \<and> th \<le> failureRate w)"

text \<open>
  Modelled from the spec: a call that the circuit lets through (section 4.2), missing
  with the library. The call is made at time \<open>now\<close> and settles after \<open>t\<close> ms with
  \<open>r\<close>; its outcome is fed to the policy at that time. \<open>probe\<close> says that it is the
  trial call of a half-open circuit: then a failure reopens the circuit and restarts the
  reset timer, and a success closes it and clears the state of the policy. In a closed
  circuit a failure opens the circuit if the policy says so. The result of the call is
  passed on as it is.
\<close>

definition let_through ::
  "CircuitBreakerPolicy \<Rightarrow> bool \<Rightarrow> int \<Rightarrow> (int \<times> 'a settled) \<times> effect list
    \<Rightarrow> (int \<times> 'a settled) \<times> effect list \<times> CircuitBreakerPolicy" where
  "let_through cb probe now task =
     (case task of ((t, r), es) \<Rightarrow>
        (case r of
           Resolved v \<Rightarrow>
             ((t, r), es,
              cb\<lparr>policy := (if probe then clear (policy cb) else success (now + t) (policy cb)),
                 state := Closed\<rparr>)
         | Rejected e \<Rightarrow>
             (let p = failure (now + t) (policy cb) in
              ((t, r), es,
               cb\<lparr>policy := p,
                  state := (if probe \<or> shouldOpen p then Open (now + t) else Closed)\<rparr>))))"

text \<open>
  Modelled from the spec: \<^verbatim>\<open>breaker.execute(fn)\<close> at time \<open>now\<close> (section 4.2), missing
  with the library. An open circuit rejects the call at once with
  \<^verbatim>\<open>BrokenCircuitError\<close>, without running \<open>fn\<close>, until \<open>halfOpenAfter\<close> ms have passed
  since it opened; the first call after that is the probe. While a probe is under way
  (\<open>HalfOpen\<close>) further calls are rejected like those of an open circuit. The task is
  given by what it would do if it ran: the result it settles with and its effects.
\<close>

definition execute ::
  "CircuitBreakerPolicy \<Rightarrow> int \<Rightarrow> (int \<times> 'a settled) \<times> effect list
    \<Rightarrow> (int \<times> 'a settled) \<times> effect list \<times> CircuitBreakerPolicy" where
  "execute cb now task =
     (case state cb of
        Closed \<Rightarrow> let_through cb False now task
      | Open openedAt \<Rightarrow>
          (if now - openedAt < halfOpenAfter cb
           then ((0, Rejected BrokenCircuitError), [], cb)
           else let_through cb True now task)
      | HalfOpen \<Rightarrow> ((0, Rejected BrokenCircuitError), [], cb))"

text \<open>
  Modelled from the spec: \<^verbatim>\<open>Policy.timeout(duration, TimeoutStrategy.Aggressive)\<close> and
  its \<^verbatim>\<open>execute\<close> (section 4.3), missing with the library. The call races a deadline:
  a call that settles before the deadline keeps its result or error unchanged;
  otherwise the promise is rejected with \<^verbatim>\<open>TaskCancelledError\<close> when the deadline
  passes, also when the call never settles.
\<close>

definition timeout_execute :: "int \<Rightarrow> 'a promise \<Rightarrow> int \<times> 'a settled" where
  "timeout_execute duration task =
     (case task of
        None \<Rightarrow> (duration, Rejected TaskCancelledError)
      | Some (t, r) \<Rightarrow>
          (if t < duration then (t, r) else (duration, Rejected TaskCancelledError)))"

section \<open>AppService\<close>

record AppService =
  configHandlerService :: ConfigHandlerService
  breaker :: CircuitBreakerPolicy

text \<open>
  What the surroundings do during one call of \<^verbatim>\<open>handleRequest\<close>: the clock when the call
  is made, what \<^verbatim>\<open>httpService.get(url).toPromise()\<close> does, and whether the monitor
  accepts the report.
\<close>

record Env =
  now :: int
  reply :: "AxiosResponse promise"
  monitorUp :: bool

text \<open>\<^verbatim>\<open>setupBreaker\<close> (lines 32-58).\<close>

definition setupBreaker :: "AppService \<Rightarrow> AppService" where
  "setupBreaker s =
     (let c = configHandlerService s in
      if breakerType c = ''consecutive''
      then s\<lparr>breaker := circuitBreaker (resetDuration c)
                 (new_ConsecutiveBreaker (consecutiveFailures c))\<rparr>
      else s\<lparr>breaker := circuitBreaker (resetDuration c)
                 (new_SamplingBreaker (threshold c) (monitorDuration c) (minimumRequests c))\<rparr>)"

text \<open>
  The constructor (lines 19-24) stores its two services and calls \<^verbatim>\<open>setupBreaker\<close>;
  the field \<^verbatim>\<open>breaker\<close> holds nothing before, and what stands for it here is overwritten.
\<close>

definition new_AppService :: "ConfigHandlerService \<Rightarrow> AppService" where
  "new_AppService c =
     setupBreaker \<lparr>configHandlerService = c, breaker = circuitBreaker 0 (new_ConsecutiveBreaker 0)\<rparr>"

text \<open>
  \<^verbatim>\<open>sendError\<close> (lines 66-78): posts the log to the monitor, prints one of two lines
  when the post succeeds or fails, and returns the log.
\<close>

definition sendError :: "ConfigHandlerService \<Rightarrow> bool \<Rightarrow> json \<Rightarrow> json \<times> effect list" where
  "sendError c up logMsg =
     (logMsg,
      [Post (monitorUrl c) logMsg,
       ConsoleLog (if up then ''Report sent to monitor at '' @ monitorUrl c
                   else ''Monitor at '' @ monitorUrl c @ '' not available'')])"

text \<open>
  \<^verbatim>\<open>sendRequest\<close> (lines 180-190): the GET request; a response is turned into its
  \<^verbatim>\<open>data\<close>, a rejection is passed on.
\<close>

definition sendRequest :: "string \<Rightarrow> AxiosResponse promise \<Rightarrow> json promise \<times> effect list" where
  "sendRequest url r =
     (case r of
        None \<Rightarrow> (None, [Get url])
      | Some (t, Resolved send) \<Rightarrow>
          (Some (t, Resolved (data send)),
           Get url #
             (if status send = 200
              then [ConsoleLog (''Request to '' @ url @ '' was successful'')] else []))
      | Some (t, Rejected error) \<Rightarrow> (Some (t, Rejected error), [Get url]))"

text \<open>
  \<^verbatim>\<open>handleTimeout\<close> (lines 153-168): \<^verbatim>\<open>sendRequest\<close> under the timeout. The function
  given to the timeout assigns what \<^verbatim>\<open>sendRequest\<close> resolved with to the variable
  \<^verbatim>\<open>result\<close> and itself resolves with nothing; when the timeout lets it finish,
  \<^verbatim>\<open>result\<close> is returned. A rejection, of the timeout or of \<^verbatim>\<open>sendRequest\<close>, is
  passed on.
\<close>

definition handleTimeout ::
  "ConfigHandlerService \<Rightarrow> string \<Rightarrow> AxiosResponse promise \<Rightarrow> (int \<times> json settled) \<times> effect list" where
  "handleTimeout c url r =
     (case sendRequest url r of
        (p, es) \<Rightarrow>
          (let result = (case p of Some (t, Resolved v) \<Rightarrow> v | _ \<Rightarrow> JUndefined);
               body = (case p of
                         None \<Rightarrow> None
                       | Some (t, Resolved v) \<Rightarrow> Some (t, Resolved JUndefined)
                       | Some (t, Rejected error) \<Rightarrow> Some (t, Rejected error))
           in case timeout_execute (timeoutDuration c) body of
                (t, Resolved x) \<Rightarrow> ((t, Resolved result), es)
              | (t, Rejected error) \<Rightarrow> ((t, Rejected error), es)))"

text \<open>
  The \<^verbatim>\<open>catch\<close> block of \<^verbatim>\<open>handleRequest\<close> (lines 100-138): the log for an error caught
  at time \<open>t\<close> (\<^verbatim>\<open>Date.now()\<close>).
\<close>

definition handleRequest_log :: "ConfigHandlerService \<Rightarrow> int \<Rightarrow> js_error \<Rightarrow> json" where
  "handleRequest_log c t error =
     (if error = BrokenCircuitError then
        JObject
          [(''type'', JLogType CB_OPEN),
           (''time'', JNumber t),
           (''message'', JString ''CircuitBreaker is open.''),
           (''source'', JString ''Database Service''),
           (''detector'', JString ''Price Service''),
           (''data'', JObject
              [(''openTime'', JNumber (resetDuration c)),
               (''failedResponses'', JNumber (consecutiveFailures c))])]
      else if error = TaskCancelledError then
        JObject
          [(''type'', JLogType TIMEOUT),
           (''time'', JNumber t),
           (''message'', JString ''Request was timed out.''),
           (''source'', JString ''Database Service''),
           (''detector'', JString ''Price Service''),
           (''data'', JObject [(''timeoutDuration'', JNumber (timeoutDuration c))])]
      else
        JObject
          [(''type'', JLogType ERROR),
           (''time'', JNumber t),
           (''message'', JString ''Service is not available.''),
           (''source'', JString ''Database Service''),
           (''detector'', JString ''Price Service''),
           (''data'', JObject
              [(''expected'', JString ''Not an error''),
               (''result'', JString (message error))])])"

text \<open>
  The awaited expression of \<^verbatim>\<open>handleRequest\<close> (line 94):
  \<^verbatim>\<open>this.breaker.execute(() => this.handleTimeout(url))\<close>.
\<close>

definition handleRequest_try ::
  "AppService \<Rightarrow> string \<Rightarrow> Env \<Rightarrow> (int \<times> json settled) \<times> effect list \<times> CircuitBreakerPolicy" where
  "handleRequest_try s url env =
     execute (breaker s) (now env)
       (handleTimeout (configHandlerService s) url (reply env))"

text \<open>
  \<^verbatim>\<open>handleRequest\<close> (lines 92-142). The result is what the promise resolves with, the
  service afterwards, and the effects of the call. The error is caught \<open>t\<close> ms after
  the call was made, which is when \<^verbatim>\<open>Date.now()\<close> is read for the log. Both the
  \<^verbatim>\<open>try\<close> and the \<^verbatim>\<open>catch\<close> block end in a \<^verbatim>\<open>return\<close>, and no statement of the
  \<^verbatim>\<open>catch\<close> block throws for the error objects above, so the promise of
  \<^verbatim>\<open>handleRequest\<close> is never rejected: the model gives the value it resolves with.
\<close>

definition handleRequest :: "AppService \<Rightarrow> string \<Rightarrow> Env \<Rightarrow> json \<times> AppService \<times> effect list" where
  "handleRequest s url env =
     (let c = configHandlerService s in
      case handleRequest_try s url env of
        ((t, r), es, cb) \<Rightarrow>
          (case r of
             Resolved d \<Rightarrow>
               (JObject
                  [(''type'', JString ''Success''),
                   (''message'', JString ''Request to database was successful''),
                   (''result'', d)],
                s\<lparr>breaker := cb\<rparr>, es)
           | Rejected error \<Rightarrow>
               (case sendError c (monitorUp env) (handleRequest_log c (now env + t) error) of
                  (logMsg, es') \<Rightarrow> (logMsg, s\<lparr>breaker := cb\<rparr>, es @ es'))))"

text \<open>Calls made one after the other, each one settled before the next is made.\<close>

fun handleRequests :: "AppService \<Rightarrow> (string \<times> Env) list \<Rightarrow> json list \<times> AppService" where
  "handleRequests s [] = ([], s)"
| "handleRequests s ((url, env) # calls) =
     (case handleRequest s url env of
        (r, s', es) \<Rightarrow> (case handleRequests s' calls of (rs, s'') \<Rightarrow> (r # rs, s'')))"

section \<open>Reading the objects\<close>

text \<open>\<^verbatim>\<open>o.k\<close> and \<^verbatim>\<open>Object.keys(o)\<close> of JavaScript.\<close>

fun property :: "json \<Rightarrow> string \<Rightarrow> json" where
  "property (JObject fs) k = (case map_of fs k of Some v \<Rightarrow> v | None \<Rightarrow> JUndefined)"
| "property v k = JUndefined"

fun keys :: "json \<Rightarrow> string list" where
  "keys (JObject fs) = map fst fs"
| "keys v = []"

text \<open>A call failed when what it resolved with is not the success object.\<close>

definition failed :: "json \<Rightarrow> bool" where
  "failed r = (property r ''type'' \<noteq> JString ''Success'')"

section \<open>The consecutive breaker between calls\<close>

text \<open>
  What holds of the breaker that \<^verbatim>\<open>setupBreaker\<close> builds for the consecutive policy with
  reset duration \<open>R\<close> and threshold \<open>N\<close>, after any number of calls: while the
  circuit is closed the count is below the threshold, and between two calls the circuit
  is never half-open.
\<close>

definition consecutive_inv :: "int \<Rightarrow> int \<Rightarrow> CircuitBreakerPolicy \<Rightarrow> bool" where
  "consecutive_inv R N cb =
     (halfOpenAfter cb = R \<and> 1 \<le> N \<and>
      (case policy cb of
         ConsecutiveBreaker n k \<Rightarrow>
           n = N \<and>
           (case state cb of
              Closed \<Rightarrow> 0 \<le> k \<and> k < N
            | Open t \<Rightarrow> True
            | HalfOpen \<Rightarrow> False)
       | SamplingBreaker x y z w \<Rightarrow> False))"

section \<open>The earlier revision of the service\<close>

text \<open>
  The file ends with an earlier revision of \<^verbatim>\<open>AppService\<close> (lines 192-305), which the
  revision above replaces. Two parts of it are modelled: how it takes over a new
  configuration, and the log it sends to the monitor. Its configuration service has two
  more fields, and the service keeps one breaker of each kind and the timeout.
\<close>

record ConfigHandlerService_v0 = ConfigHandlerService +
  databaseUrl :: string
  configWasUpdated :: bool

record AppService_v0 =
  configHandlerService_v0 :: ConfigHandlerService_v0
  consecutiveBreaker :: CircuitBreakerPolicy
  samplingBreaker :: CircuitBreakerPolicy
  timeout :: int

text \<open>\<^verbatim>\<open>updateConfig\<close> of the earlier revision (lines 223-233).\<close>

definition updateConfig_v0 :: "AppService_v0 \<Rightarrow> AppService_v0" where
  "updateConfig_v0 s =
     (let c = configHandlerService_v0 s in
      s\<lparr>consecutiveBreaker :=
           circuitBreaker (resetDuration c) (new_ConsecutiveBreaker (consecutiveFailures c)),
        samplingBreaker :=
           circuitBreaker (resetDuration c)
             (new_SamplingBreaker (threshold c) (monitorDuration c) (minimumRequests c)),
        timeout := timeoutDuration c\<rparr>)"

text \<open>
  The first statement of \<^verbatim>\<open>handleRequest\<close> of the earlier revision (lines 259-262): the
  flag \<^verbatim>\<open>configWasUpdated\<close> is tested, and cleared after \<^verbatim>\<open>updateConfig\<close>.
\<close>

definition handleRequest_v0_update :: "AppService_v0 \<Rightarrow> AppService_v0" where
  "handleRequest_v0_update s =
     (if configWasUpdated (configHandlerService_v0 s) = True
      then (let s' = updateConfig_v0 s in
            s'\<lparr>configHandlerService_v0 :=
                 (configHandlerService_v0 s')\<lparr>configWasUpdated := False\<rparr>\<rparr>)
      else s)"

text \<open>
  \<^verbatim>\<open>sendError\<close> of the earlier revision (lines 240-253), called at time \<open>t\<close>
  (\<^verbatim>\<open>Date.now()\<close>): it builds the log itself.
\<close>

definition sendError_v0 ::
  "ConfigHandlerService_v0 \<Rightarrow> int \<Rightarrow> bool \<Rightarrow> LogType \<Rightarrow> string \<Rightarrow> string \<Rightarrow> string
    \<Rightarrow> json \<times> effect list" where
  "sendError_v0 c t up ty msg src tgt =
     (let logMsg =
        JObject
          [(''type'', JLogType ty),
           (''time'', JNumber t),
           (''source'', JString src),
           (''target'', JString tgt),
           (''message'', JString msg)]
      in (logMsg,
          [Post (monitorUrl c) logMsg,
           ConsoleLog (if up then ''Report sent to monitor at '' @ monitorUrl c
                       else ''Monitor at '' @ monitorUrl c @ '' not available'')]))"

text \<open>
  The \<^verbatim>\<open>catch\<close> block of \<^verbatim>\<open>handleRequest\<close> of the earlier revision (lines
  271-279), for an error caught at time \<open>t\<close>.
\<close>

definition handleRequest_v0_catch ::
  "ConfigHandlerService_v0 \<Rightarrow> int \<Rightarrow> bool \<Rightarrow> js_error \<Rightarrow> json \<times> effect list" where
  "handleRequest_v0_catch c t up error =
     (if error = BrokenCircuitError then
        sendError_v0 c t up CB_OPEN ''CircuitBreaker is open.'' ''priceservice'' ''databaseservice''
      else if error = TaskCancelledError then
        sendError_v0 c t up TIMEOUT ''Request was timed out.'' ''priceservice'' ''databaseservice''
      else
        sendError_v0 c t up ERROR ''Service is not available.'' ''priceservice''
          ''databaseservice'')"

section \<open>Example inputs\<close>

text \<open>
  A configuration with the consecutive breaker (two failures in a row open the circuit
  for one second, calls time out after half a second), the same with the sampling
  breaker, and two kinds of call: one the database service answers with an error after
  10 ms, one it answers with status 200 and the payload 42 after 10 ms.
\<close>

definition example_config :: ConfigHandlerService where
  "example_config =
     \<lparr>breakerType = ''consecutive'', resetDuration = 1000, timeoutDuration = 500,
      monitorDuration = 10000, threshold = 1 / 2, minimumRequests = 10,
      consecutiveFailures = 2, monitorUrl = ''http://localhost:3400''\<rparr>"

definition sampling_config :: ConfigHandlerService where
  "sampling_config = example_config\<lparr>breakerType := ''sampling''\<rparr>"

definition failing_call :: "int \<Rightarrow> Env" where
  "failing_call t0 =
     \<lparr>now = t0, reply = Some (10, Rejected (OtherError ''connect ECONNREFUSED'')),
      monitorUp = True\<rparr>"

definition answered_call :: "int \<Rightarrow> Env" where
  "answered_call t0 =
     \<lparr>now = t0, reply = Some (10, Resolved \<lparr>status = 200, data = JNumber 42\<rparr>),
      monitorUp = True\<rparr>"

text \<open>A call the database service never answers.\<close>

definition unanswered_call :: "int \<Rightarrow> Env" where
  "unanswered_call t0 = \<lparr>now = t0, reply = None, monitorUp = False\<rparr>"

text \<open>The service after two failed calls, made at 0 ms and at 20 ms.\<close>

definition after_two_failures :: "ConfigHandlerService \<Rightarrow> AppService" where
  "after_two_failures c =
     snd (handleRequests (new_AppService c)
            [(''/balance'', failing_call 0), (''/balance'', failing_call 20)])"

text \<open>The configuration of the earlier revision with the same values.\<close>

definition example_config_v0 :: ConfigHandlerService_v0 where
  "example_config_v0 =
     \<lparr>breakerType = ''consecutive'', resetDuration = 1000, timeoutDuration = 500,
      monitorDuration = 10000, threshold = 1 / 2, minimumRequests = 10,
      consecutiveFailures = 2, monitorUrl = ''http://localhost:3400'',
      databaseUrl = ''http://localhost:3000'', configWasUpdated = False\<rparr>"

text \<open>
  Runs of ten calls, 20 ms apart, for the sampling breaker: \<open>k\<close> calls that are
  answered and then \<open>10 - k\<close> calls that fail, or the failures first.
\<close>

fun calls_from :: "int \<Rightarrow> bool list \<Rightarrow> (string \<times> Env) list" where
  "calls_from t0 [] = []"
| "calls_from t0 (ok # oks) =
     (''/balance'', if ok then answered_call t0 else failing_call t0) # calls_from (t0 + 20) oks"



definition ten_failures :: "(string \<times> Env) list" where
  "ten_failures =
     calls_from 0 [False, False, False, False, False, False, False, False, False, False]"

text \<open>
  Four calls at 0, 20, 40 and 60 ms: a failure, a success, two failures.
\<close>

definition failure_success_two_failures :: "(string \<times> Env) list" where
  "failure_success_two_failures =
     [(''/balance'', failing_call 0), (''/balance'', answered_call 20),
      (''/balance'', failing_call 40), (''/balance'', failing_call 60)]"

section \<open>How a call runs\<close>

lemma execute_cases:
  "execute cb n task = ((0, Rejected BrokenCircuitError), [], cb) \<or>
   (\<exists>p. execute cb n task = let_through cb p n task)"
  by (auto simp: execute_def split: CircuitState.splits)

lemma let_through_result: "fst (let_through cb p n task) = fst task"
  by (auto simp: let_through_def Let_def split: prod.splits settled.splits)

lemma let_through_effects: "fst (snd (let_through cb p n task)) = snd task"
  by (auto simp: let_through_def Let_def split: prod.splits settled.splits)

lemma execute_effects_irrelevant:
  "fst (execute cb n (x, es)) = fst (execute cb n (x, es')) \<and>
   snd (snd (execute cb n (x, es))) = snd (snd (execute cb n (x, es')))"
  by (cases x)
    (auto simp: execute_def let_through_def Let_def split: CircuitState.splits settled.splits)

lemma handleTimeout_effects: "snd (handleTimeout c url r) = snd (sendRequest url r)"
  by (simp add: handleTimeout_def Let_def split: prod.splits settled.splits)

lemma handleTimeout_in_time:
  "t < timeoutDuration c \<Longrightarrow>
   fst (handleTimeout c url (Some (t, Resolved send))) = (t, Resolved (data send))"
  by (simp add: handleTimeout_def sendRequest_def timeout_execute_def)

lemma handleTimeout_status:
  "fst (handleTimeout c url (Some (t, Resolved (send\<lparr>status := st\<rparr>)))) =
   fst (handleTimeout c url (Some (t, Resolved send)))"
  by (simp add: handleTimeout_def sendRequest_def timeout_execute_def)

lemma sendRequest_no_Post: "x \<in> set (snd (sendRequest url r)) \<Longrightarrow> \<not> is_Post x"
  by (auto simp: sendRequest_def split: option.splits settled.splits if_splits)

lemma sendRequest_Gets: "filter is_Get (snd (sendRequest url r)) = [Get url]"
  by (auto simp: sendRequest_def split: option.splits settled.splits prod.splits)

lemma handleRequest_log_type:
  "property (handleRequest_log c t e) ''type'' =
     JLogType (if e = BrokenCircuitError then CB_OPEN
               else if e = TaskCancelledError then TIMEOUT else ERROR)"
  by (simp add: handleRequest_log_def)

lemma handleRequest_log_keys:
  "keys (handleRequest_log c t e) =
     [''type'', ''time'', ''message'', ''source'', ''detector'', ''data'']"
  by (simp add: handleRequest_log_def)

lemma handleRequest_log_time: "property (handleRequest_log c t e) ''time'' = JNumber t"
  by (simp add: handleRequest_log_def)

lemma try_settles: "\<exists>t r. fst (handleRequest_try s url env) = (t, r)"
  by (cases "fst (handleRequest_try s url env)") simp

lemma try_effects:
  "fst (snd (handleRequest_try s url env)) = [] \<or>
   fst (snd (handleRequest_try s url env)) = snd (sendRequest url (reply env))"
  using execute_cases [of "breaker s" "now env"
      "handleTimeout (configHandlerService s) url (reply env)"]
  by (auto simp: handleRequest_try_def let_through_effects handleTimeout_effects)

lemma try_no_Post: "x \<in> set (fst (snd (handleRequest_try s url env))) \<Longrightarrow> \<not> is_Post x"
  using try_effects [of s url env] sendRequest_no_Post [of x url "reply env"] by auto

lemma try_Gets: "length (filter is_Get (fst (snd (handleRequest_try s url env)))) \<le> 1"
  using try_effects [of s url env] by (auto simp: sendRequest_Gets)

lemma try_monitorUp:
  "handleRequest_try s url (env\<lparr>monitorUp := b\<rparr>) = handleRequest_try s url env"
  by (simp add: handleRequest_try_def)

lemma try_status:
  "fst (handleRequest_try s url (env\<lparr>reply := Some (t, Resolved (send\<lparr>status := st\<rparr>))\<rparr>)) =
     fst (handleRequest_try s url (env\<lparr>reply := Some (t, Resolved send)\<rparr>)) \<and>
   snd (snd (handleRequest_try s url (env\<lparr>reply := Some (t, Resolved (send\<lparr>status := st\<rparr>))\<rparr>))) =
     snd (snd (handleRequest_try s url (env\<lparr>reply := Some (t, Resolved send)\<rparr>)))"
  using execute_effects_irrelevant [of "breaker s" "now env"
      "fst (handleTimeout (configHandlerService s) url (Some (t, Resolved send)))"
      "snd (handleTimeout (configHandlerService s) url (Some (t, Resolved (send\<lparr>status := st\<rparr>))))"
      "snd (handleTimeout (configHandlerService s) url (Some (t, Resolved send)))"]
    handleTimeout_status [of "configHandlerService s" url t st send]
  by (simp add: handleRequest_try_def) (metis prod.collapse)

lemma handleRequest_Rejected:
  "fst (handleRequest_try s url env) = (t, Rejected e) \<Longrightarrow>
   handleRequest s url env =
     (handleRequest_log (configHandlerService s) (now env + t) e,
      s\<lparr>breaker := snd (snd (handleRequest_try s url env))\<rparr>,
      fst (snd (handleRequest_try s url env)) @
        snd (sendError (configHandlerService s) (monitorUp env)
               (handleRequest_log (configHandlerService s) (now env + t) e)))"
  by (auto simp: handleRequest_def sendError_def Let_def split: prod.splits)

lemma handleRequest_Resolved:
  "fst (handleRequest_try s url env) = (t, Resolved d) \<Longrightarrow>
   handleRequest s url env =
     (JObject [(''type'', JString ''Success''),
               (''message'', JString ''Request to database was successful''),
               (''result'', d)],
      s\<lparr>breaker := snd (snd (handleRequest_try s url env))\<rparr>,
      fst (snd (handleRequest_try s url env)))"
  by (auto simp: handleRequest_def Let_def split: prod.splits)

lemma handleRequest_config:
  "configHandlerService (fst (snd (handleRequest s url env))) = configHandlerService s"
proof -
  obtain t r where tr: "fst (handleRequest_try s url env) = (t, r)"
    using try_settles by blast
  show ?thesis
    by (cases r) (simp_all add: tr handleRequest_Resolved handleRequest_Rejected)
qed

lemma handleRequest_breaker:
  "breaker (fst (snd (handleRequest s url env))) = snd (snd (handleRequest_try s url env))"
proof -
  obtain t r where tr: "fst (handleRequest_try s url env) = (t, r)"
    using try_settles by blast
  show ?thesis
    by (cases r) (simp_all add: tr handleRequest_Resolved handleRequest_Rejected)
qed

lemma handleRequest_Gets:
  "filter is_Get (snd (snd (handleRequest s url env))) =
   filter is_Get (fst (snd (handleRequest_try s url env)))"
proof -
  obtain t r where tr: "fst (handleRequest_try s url env) = (t, r)"
    using try_settles by blast
  show ?thesis
    by (cases r) (simp_all add: tr handleRequest_Resolved handleRequest_Rejected sendError_def)
qed

lemma failed_is_Rejected:
  assumes "failed (fst (handleRequest s url env))"
  shows "\<exists>t e. fst (handleRequest_try s url env) = (t, Rejected e)"
proof -
  obtain t r where tr: "fst (handleRequest_try s url env) = (t, r)"
    using try_settles by blast
  show ?thesis
  proof (cases r)
    case (Resolved d)
    then show ?thesis
      using assms handleRequest_Resolved [OF tr [unfolded Resolved]] by (simp add: failed_def)
  next
    case (Rejected e)
    with tr show ?thesis by blast
  qed
qed

lemma Rejected_is_failed:
  assumes "fst (handleRequest_try s url env) = (t, Rejected e)"
  shows "failed (fst (handleRequest s url env))"
  by (simp add: handleRequest_Rejected [OF assms] failed_def handleRequest_log_type)

lemma posted_is_log:
  assumes "Post u ev \<in> set (snd (snd (handleRequest s url env)))"
  shows "\<exists>t e. fst (handleRequest_try s url env) = (t, Rejected e) \<and>
           ev = handleRequest_log (configHandlerService s) (now env + t) e \<and>
           u = monitorUrl (configHandlerService s)"
proof -
  obtain t r where tr: "fst (handleRequest_try s url env) = (t, r)"
    using try_settles by blast
  show ?thesis
  proof (cases r)
    case (Resolved d)
    with tr assms have "Post u ev \<in> set (fst (snd (handleRequest_try s url env)))"
      by (simp add: handleRequest_Resolved)
    then show ?thesis using try_no_Post by fastforce
  next
    case (Rejected e)
    with tr assms have "Post u ev \<in> set (fst (snd (handleRequest_try s url env))) \<or>
        (ev = handleRequest_log (configHandlerService s) (now env + t) e \<and>
         u = monitorUrl (configHandlerService s))"
      by (auto simp: handleRequest_Rejected sendError_def)
    then show ?thesis using try_no_Post tr Rejected by fastforce
  qed
qed

lemma handleRequest_by_try:
  assumes "fst (handleRequest_try s url env) = fst (handleRequest_try s url env')"
      and "snd (snd (handleRequest_try s url env)) = snd (snd (handleRequest_try s url env'))"
      and "now env = now env'"
  shows "fst (handleRequest s url env) = fst (handleRequest s url env') \<and>
         fst (snd (handleRequest s url env)) = fst (snd (handleRequest s url env'))"
proof -
  obtain t r where tr: "fst (handleRequest_try s url env) = (t, r)"
    using try_settles by blast
  with assms have tr': "fst (handleRequest_try s url env') = (t, r)" by simp
  show ?thesis
  proof (cases r)
    case (Resolved d)
    show ?thesis
      using handleRequest_Resolved [OF tr [unfolded Resolved]]
        handleRequest_Resolved [OF tr' [unfolded Resolved]] assms by simp
  next
    case (Rejected e)
    show ?thesis
      using handleRequest_Rejected [OF tr [unfolded Rejected]]
        handleRequest_Rejected [OF tr' [unfolded Rejected]] assms by simp
  qed
qed

section \<open>The consecutive breaker over a run of calls\<close>

lemma closed_failure_step:
  assumes "breaker s = \<lparr>halfOpenAfter = R, policy = ConsecutiveBreaker N k, state = Closed\<rparr>"
      and "failed (fst (handleRequest s url env))"
  shows "\<exists>t. property (fst (handleRequest s url env)) ''time'' = JNumber t \<and>
           breaker (fst (snd (handleRequest s url env))) =
             \<lparr>halfOpenAfter = R, policy = ConsecutiveBreaker N (k + 1),
              state = (if N \<le> k + 1 then Open t else Closed)\<rparr>"
proof -
  from failed_is_Rejected [OF assms(2)] obtain t e where
    tr: "fst (handleRequest_try s url env) = (t, Rejected e)" by blast
  have lt: "handleRequest_try s url env =
      let_through (breaker s) False (now env)
        (handleTimeout (configHandlerService s) url (reply env))"
    by (simp add: handleRequest_try_def execute_def assms(1))
  then have "fst (handleTimeout (configHandlerService s) url (reply env)) = (t, Rejected e)"
    using tr by (simp add: let_through_result)
  then have "snd (snd (handleRequest_try s url env)) =
      \<lparr>halfOpenAfter = R, policy = ConsecutiveBreaker N (k + 1),
       state = (if N \<le> k + 1 then Open (now env + t) else Closed)\<rparr>"
    unfolding lt by (cases "handleTimeout (configHandlerService s) url (reply env)")
      (simp add: let_through_def assms(1))
  then show ?thesis
    by (simp add: handleRequest_breaker)
      (simp add: handleRequest_Rejected [OF tr] handleRequest_log_time)
qed

lemma closed_failures:
  assumes "breaker s = \<lparr>halfOpenAfter = R, policy = ConsecutiveBreaker N k, state = Closed\<rparr>"
      and "k + int (length calls) = N"
      and "calls \<noteq> []"
      and "handleRequests s calls = (rs, s')"
      and "list_all failed rs"
  shows "\<exists>t. property (last rs) ''time'' = JNumber t \<and>
           breaker s' = \<lparr>halfOpenAfter = R, policy = ConsecutiveBreaker N N, state = Open t\<rparr> \<and>
           configHandlerService s' = configHandlerService s"
  using assms
proof (induction calls arbitrary: s k rs)
  case Nil
  then show ?case by simp
next
  case (Cons call calls)
  obtain url env where call: "call = (url, env)" by (cases call)
  obtain r s1 es where h: "handleRequest s url env = (r, s1, es)"
    by (cases "handleRequest s url env")
  obtain rs1 where rs1: "handleRequests s1 calls = (rs1, s')" and rs: "rs = r # rs1"
    using Cons.prems(4) by (auto simp: call h split: prod.splits)
  have fr: "failed r" and frs: "list_all failed rs1"
    using Cons.prems(5) rs by simp_all
  from closed_failure_step [OF Cons.prems(1), of url env] fr h obtain t where
    t: "property r ''time'' = JNumber t"
       "breaker s1 = \<lparr>halfOpenAfter = R, policy = ConsecutiveBreaker N (k + 1),
          state = (if N \<le> k + 1 then Open t else Closed)\<rparr>"
    by auto
  have c1: "configHandlerService s1 = configHandlerService s"
    using handleRequest_config [of s url env] h by simp
  show ?case
  proof (cases "calls = []")
    case True
    then have "N = k + 1" "rs1 = []" "s' = s1"
      using Cons.prems(2) rs1 by auto
    then show ?thesis using t c1 rs by simp
  next
    case False
    then have "\<not> N \<le> k + 1" using Cons.prems(2) by (cases calls) auto
    then have b1: "breaker s1 =
        \<lparr>halfOpenAfter = R, policy = ConsecutiveBreaker N (k + 1), state = Closed\<rparr>"
      using t(2) by simp
    have "(k + 1) + int (length calls) = N" using Cons.prems(2) by simp
    from Cons.IH [OF b1 this False rs1 frs] obtain t' where
      "property (last rs1) ''time'' = JNumber t'"
      "breaker s' = \<lparr>halfOpenAfter = R, policy = ConsecutiveBreaker N N, state = Open t'\<rparr>"
      "configHandlerService s' = configHandlerService s1" by blast
    moreover have "rs1 \<noteq> []" using rs1 False by (cases calls) (auto split: prod.splits)
    ultimately show ?thesis using rs c1 by simp
  qed
qed

lemma open_rejects:
  assumes "state (breaker s) = Open t0" and "now env - t0 < halfOpenAfter (breaker s)"
  shows "property (fst (handleRequest s url env)) ''type'' = JLogType CB_OPEN \<and>
         filter is_Get (snd (snd (handleRequest s url env))) = []"
proof -
  have tr: "handleRequest_try s url env = ((0, Rejected BrokenCircuitError), [], breaker s)"
    using assms by (simp add: handleRequest_try_def execute_def)
  then have "fst (handleRequest_try s url env) = (0, Rejected BrokenCircuitError)" by simp
  from handleRequest_Rejected [OF this] show ?thesis
    by (simp add: tr handleRequest_log_type sendError_def)
qed

lemma open_probe:
  assumes "state (breaker s) = Open t0" and "\<not> now env - t0 < halfOpenAfter (breaker s)"
  shows "filter is_Get (snd (snd (handleRequest s url env))) = [Get url] \<and>
         fst (handleRequest_try s url env) =
           fst (handleTimeout (configHandlerService s) url (reply env))"
proof -
  have tr: "handleRequest_try s url env =
      let_through (breaker s) True (now env)
        (handleTimeout (configHandlerService s) url (reply env))"
    using assms by (simp add: handleRequest_try_def execute_def)
  then have "fst (snd (handleRequest_try s url env)) = snd (sendRequest url (reply env))"
    by (simp add: let_through_effects handleTimeout_effects)
  then show ?thesis
    by (simp add: handleRequest_Gets sendRequest_Gets tr let_through_result)
qed

lemma success_resets:
  assumes "policy (breaker s) = ConsecutiveBreaker n k"
      and "\<not> failed (fst (handleRequest s url env))"
  shows "policy (breaker (fst (snd (handleRequest s url env)))) = ConsecutiveBreaker n 0 \<and>
         state (breaker (fst (snd (handleRequest s url env)))) = Closed"
proof -
  obtain t r where tr: "fst (handleRequest_try s url env) = (t, r)"
    using try_settles by blast
  have "\<exists>d. r = Resolved d"
  proof (cases r)
    case (Rejected e)
    then show ?thesis
      using assms(2) Rejected_is_failed [OF tr [unfolded Rejected]] by simp
  qed simp
  then obtain d where d: "fst (handleRequest_try s url env) = (t, Resolved d)" using tr by blast
  from execute_cases [of "breaker s" "now env"
        "handleTimeout (configHandlerService s) url (reply env)"]
  obtain p where "handleRequest_try s url env =
      let_through (breaker s) p (now env)
        (handleTimeout (configHandlerService s) url (reply env))"
    using d by (auto simp: handleRequest_try_def)
  moreover from this d
  have "fst (handleTimeout (configHandlerService s) url (reply env)) = (t, Resolved d)"
    by (simp add: let_through_result)
  ultimately have "snd (snd (handleRequest_try s url env)) =
      (breaker s)\<lparr>policy := ConsecutiveBreaker n 0, state := Closed\<rparr>"
    by (cases "handleTimeout (configHandlerService s) url (reply env)")
      (simp add: let_through_def assms(1))
  then show ?thesis by (simp add: handleRequest_breaker)
qed

lemma inv_execute:
  "consecutive_inv R N cb \<Longrightarrow> consecutive_inv R N (snd (snd (execute cb n task)))"
  by (cases task; cases "fst task")
    (auto simp: consecutive_inv_def execute_def let_through_def Let_def
      split: CircuitState.splits settled.splits IBreaker.splits prod.splits)

lemma inv_handleRequest:
  "consecutive_inv R N (breaker s) \<Longrightarrow>
   consecutive_inv R N (breaker (fst (snd (handleRequest s url env))))"
  by (simp add: handleRequest_breaker handleRequest_try_def inv_execute)

lemma inv_handleRequests:
  "consecutive_inv R N (breaker s) \<Longrightarrow> handleRequests s calls = (rs, s') \<Longrightarrow>
   consecutive_inv R N (breaker s')"
proof (induction calls arbitrary: s rs)
  case Nil
  then show ?case by simp
next
  case (Cons call calls)
  obtain url env where call: "call = (url, env)" by (cases call)
  obtain r s1 es where h: "handleRequest s url env = (r, s1, es)"
    by (cases "handleRequest s url env")
  obtain rs1 where rs1: "handleRequests s1 calls = (rs1, s')"
    using Cons.prems(2) by (auto simp: call h split: prod.splits)
  have "consecutive_inv R N (breaker s1)"
    using inv_handleRequest [OF Cons.prems(1), of url env] h by simp
  from Cons.IH [OF this rs1] show ?case .
qed

lemma handleRequests_config:
  "handleRequests s calls = (rs, s') \<Longrightarrow> configHandlerService s' = configHandlerService s"
proof (induction calls arbitrary: s rs)
  case Nil
  then show ?case by simp
next
  case (Cons call calls)
  obtain url env where call: "call = (url, env)" by (cases call)
  obtain r s1 es where h: "handleRequest s url env = (r, s1, es)"
    by (cases "handleRequest s url env")
  obtain rs1 where rs1: "handleRequests s1 calls = (rs1, s')"
    using Cons.prems(1) by (auto simp: call h split: prod.splits)
  have "configHandlerService s1 = configHandlerService s"
    using handleRequest_config [of s url env] h by simp
  with Cons.IH [OF rs1] show ?case by simp
qed

lemma handleRequests_append:
  "handleRequests s (xs @ ys) =
     (case handleRequests s xs of
        (rs1, s1) \<Rightarrow> (case handleRequests s1 ys of (rs2, s2) \<Rightarrow> (rs1 @ rs2, s2)))"
  by (induction xs arbitrary: s) (auto split: prod.splits)

lemma handleRequests_length: "handleRequests s calls = (rs, s') \<Longrightarrow> length rs = length calls"
  by (induction calls arbitrary: s rs) (auto split: prod.splits)

lemma failure_keeps_closed:
  assumes "consecutive_inv R N (breaker s)"
      and "failed (fst (handleRequest s url env))"
      and "state (breaker (fst (snd (handleRequest s url env)))) = Closed"
  shows "state (breaker s) = Closed \<and>
         cb_count (policy (breaker (fst (snd (handleRequest s url env))))) =
           cb_count (policy (breaker s)) + 1"
proof -
  from failed_is_Rejected [OF assms(2)] obtain t e where
    tr: "fst (handleRequest_try s url env) = (t, Rejected e)" by blast
  have c: "state (snd (snd (handleRequest_try s url env))) = Closed"
    using assms(3) by (simp add: handleRequest_breaker)
  show ?thesis
    using assms(1) tr c
    unfolding handleRequest_breaker handleRequest_try_def
    by (cases "handleTimeout (configHandlerService s) url (reply env)")
      (auto simp: consecutive_inv_def execute_def let_through_def Let_def
        split: CircuitState.splits settled.splits IBreaker.splits if_splits)
qed

lemma failures_keep_closed:
  assumes "consecutive_inv R N (breaker s)"
      and "handleRequests s calls = (rs, s')"
      and "list_all failed rs"
      and "state (breaker s') = Closed"
  shows "state (breaker s) = Closed \<and>
         cb_count (policy (breaker s')) = cb_count (policy (breaker s)) + int (length calls)"
  using assms
proof (induction calls arbitrary: s rs)
  case Nil
  then show ?case by simp
next
  case (Cons call calls)
  obtain url env where call: "call = (url, env)" by (cases call)
  obtain r s1 es where h: "handleRequest s url env = (r, s1, es)"
    by (cases "handleRequest s url env")
  obtain rs1 where rs1: "handleRequests s1 calls = (rs1, s')" and rs: "rs = r # rs1"
    using Cons.prems(2) by (auto simp: call h split: prod.splits)
  have fr: "failed r" and frs: "list_all failed rs1"
    using Cons.prems(3) rs by simp_all
  have i1: "consecutive_inv R N (breaker s1)"
    using inv_handleRequest [OF Cons.prems(1), of url env] h by simp
  from Cons.IH [OF i1 rs1 frs Cons.prems(4)]
  have 1: "state (breaker s1) = Closed"
    "cb_count (policy (breaker s')) = cb_count (policy (breaker s1)) + int (length calls)"
    by simp_all
  from failure_keeps_closed [OF Cons.prems(1), of url env] fr 1(1) h
  have "state (breaker s) = Closed" "cb_count (policy (breaker s1)) = cb_count (policy (breaker s)) + 1"
    by simp_all
  with 1 show ?case by simp
qed

lemma failures_open:
  assumes "consecutive_inv R N (breaker s)"
      and "handleRequests s calls = (rs, s')"
      and "list_all failed rs"
      and "int (length calls) = N"
  shows "\<exists>t0. state (breaker s') = Open t0"
proof (cases "state (breaker s')")
  case Closed
  from failures_keep_closed [OF assms(1-3) Closed]
  have "state (breaker s) = Closed"
    "cb_count (policy (breaker s')) = cb_count (policy (breaker s)) + N"
    using assms(4) by simp_all
  moreover have "0 \<le> cb_count (policy (breaker s))"
    using assms(1) \<open>state (breaker s) = Closed\<close>
    by (auto simp: consecutive_inv_def split: IBreaker.splits)
  moreover have "cb_count (policy (breaker s')) < N"
    using inv_handleRequests [OF assms(1,2)] Closed
    by (auto simp: consecutive_inv_def split: IBreaker.splits)
  ultimately show ?thesis by simp
next
  case (Open t0)
  then show ?thesis by blast
next
  case HalfOpen
  then show ?thesis
    using inv_handleRequests [OF assms(1,2)]
    by (auto simp: consecutive_inv_def split: IBreaker.splits)
qed

lemma after_success:
  assumes "consecutive_inv R N (breaker s)"
      and "handleRequests s calls = (rs, s')"
      and "calls \<noteq> []"
      and "\<not> failed (last rs)"
  shows "breaker s' = \<lparr>halfOpenAfter = R, policy = ConsecutiveBreaker N 0, state = Closed\<rparr>"
proof -
  obtain xs url env where calls: "calls = xs @ [(url, env)]"
    using assms(3) by (metis rev_exhaust surj_pair)
  obtain rs1 s1 where xs: "handleRequests s xs = (rs1, s1)" by (cases "handleRequests s xs")
  have i1: "consecutive_inv R N (breaker s1)" by (rule inv_handleRequests [OF assms(1) xs])
  have s': "s' = fst (snd (handleRequest s1 url env))"
    and rs: "rs = rs1 @ [fst (handleRequest s1 url env)]"
    using assms(2) by (auto simp: calls handleRequests_append xs split: prod.splits)
  from i1 obtain k where p: "policy (breaker s1) = ConsecutiveBreaker N k"
    by (auto simp: consecutive_inv_def split: IBreaker.splits)
  have nf: "\<not> failed (fst (handleRequest s1 url env))" using assms(4) rs by simp
  from success_resets [OF p nf] inv_handleRequest [OF i1, of url env]
  show ?thesis unfolding s'
    by (cases "breaker (fst (snd (handleRequest s1 url env)))")
      (simp add: consecutive_inv_def)
qed

section \<open>The sampling breaker\<close>




section \<open>Setting up the breaker\<close>

text \<open>
  With any \<^verbatim>\<open>breakerType\<close> other than \<^verbatim>\<open>'consecutive'\<close>, \<^verbatim>\<open>setupBreaker\<close> builds the
  sampling breaker from \<^verbatim>\<open>threshold\<close>, \<^verbatim>\<open>monitorDuration\<close> and \<^verbatim>\<open>minimumRequests\<close>, the
  last one as the option \<^verbatim>\<open>minimumRps\<close>.
\<close>

lemma setupBreaker_config: "configHandlerService (setupBreaker s) = configHandlerService s"
  by (simp add: setupBreaker_def Let_def)

lemma setupBreaker_sampling_options:
  "breakerType (configHandlerService s) \<noteq> ''consecutive'' \<Longrightarrow>
   breaker (setupBreaker s) =
     \<lparr>halfOpenAfter = resetDuration (configHandlerService s),
      policy = SamplingBreaker (threshold (configHandlerService s))
                 (monitorDuration (configHandlerService s))
                 (minimumRequests (configHandlerService s)) [],
      state = Closed\<rparr>"
  by (simp add: setupBreaker_def circuitBreaker_def new_SamplingBreaker_def Let_def)

section \<open>The earlier revision\<close>

text \<open>
  The earlier revision rebuilt its breakers at the start of the first call after the
  flag \<^verbatim>\<open>configWasUpdated\<close> was set, whatever the values of the configuration, and left
  them alone otherwise.
\<close>

lemma handleRequest_v0_update_flag_set:
  "configWasUpdated (configHandlerService_v0 s) \<Longrightarrow>
   consecutiveBreaker (handleRequest_v0_update s) =
     circuitBreaker (resetDuration (configHandlerService_v0 s))
       (ConsecutiveBreaker (consecutiveFailures (configHandlerService_v0 s)) 0) \<and>
   state (samplingBreaker (handleRequest_v0_update s)) = Closed \<and>
   \<not> configWasUpdated (configHandlerService_v0 (handleRequest_v0_update s))"
  by (simp add: handleRequest_v0_update_def updateConfig_v0_def circuitBreaker_def
      new_ConsecutiveBreaker_def Let_def)

lemma handleRequest_v0_update_flag_clear:
  "\<not> configWasUpdated (configHandlerService_v0 s) \<Longrightarrow> handleRequest_v0_update s = s"
  by (simp add: handleRequest_v0_update_def)

text \<open>Its log had the fields \<^verbatim>\<open>type\<close>, \<^verbatim>\<open>time\<close>, \<^verbatim>\<open>source\<close>, \<^verbatim>\<open>target\<close>, \<^verbatim>\<open>message\<close>.\<close>

lemma sendError_v0_keys:
  "keys (fst (sendError_v0 c t up ty msg src tgt)) =
     [''type'', ''time'', ''source'', ''target'', ''message'']"
  by (simp add: sendError_v0_def Let_def)

section \<open>Evaluating the examples\<close>

lemmas example_defs =
  failure_success_two_failures_def example_config_def new_SamplingBreaker_def prune_def
  failures_def failureRate_def sampling_config_def failing_call_def answered_call_def
  unanswered_call_def after_two_failures_def new_AppService_def setupBreaker_def
  circuitBreaker_def new_ConsecutiveBreaker_def handleRequest_def handleRequest_try_def
  execute_def let_through_def handleTimeout_def sendRequest_def timeout_execute_def
  sendError_def handleRequest_log_def failed_def Let_def

lemma after_two_failures_consecutive:
  "after_two_failures example_config =
     \<lparr>configHandlerService = example_config,
      breaker = \<lparr>halfOpenAfter = 1000, policy = ConsecutiveBreaker 2 2, state = Open 30\<rparr>\<rparr>"
  by (simp add: example_defs)

section \<open>The claims\<close>

subsection \<open>C1: consecutive failures open the circuit\<close>

text \<open>
  C1 as stated does not hold: after \<open>N\<close> consecutive failures the next call is
  rejected only while the reset timer runs. Here the threshold is 2 and the reset
  duration 1000 ms; two calls fail, the second at 30 ms, and a third call made at
  1030 ms is let through as the probe: the database service is called and the caller
  gets the payload.
\<close>

theorem call_after_reset_is_let_through:
  "list_all failed (fst (handleRequests (new_AppService example_config)
      [(''/balance'', failing_call 0), (''/balance'', failing_call 20)])) \<and>
   fst (handleRequest (after_two_failures example_config) ''/balance'' (answered_call 1030)) =
     JObject [(''type'', JString ''Success''),
              (''message'', JString ''Request to database was successful''),
              (''result'', JNumber 42)] \<and>
   Get ''/balance'' \<in>
     set (snd (snd (handleRequest (after_two_failures example_config) ''/balance''
                      (answered_call 1030))))"
  by (simp add: example_defs)

text \<open>
  C1, amended: with \<^verbatim>\<open>breakerType\<close> \<^verbatim>\<open>'consecutive'\<close> and a threshold
  \<open>consecutiveFailures = N \<ge> 1\<close>, let any calls be made after \<^verbatim>\<open>setupBreaker\<close>, and
  then \<open>N\<close> calls in a row through \<^verbatim>\<open>handleRequest\<close> that all fail. Then the circuit
  is open, and a call made less than \<open>resetDuration\<close> ms after the time \<open>t0\<close> at which
  it opened resolves with a \<^verbatim>\<open>CB_OPEN\<close> log, with no GET request sent for it, while
  a call made \<open>resetDuration\<close> ms after \<open>t0\<close> or later is let through as the probe:
  its GET request is sent and it settles as \<^verbatim>\<open>handleTimeout\<close> does. When the \<open>N\<close>
  failures follow \<^verbatim>\<open>setupBreaker\<close> or a successful call directly, \<open>t0\<close> is the time
  stamp of the \<open>N\<close>-th failure. And whatever the state of a consecutive breaker, a
  call that succeeds leaves the circuit closed with a count of 0.
\<close>

theorem consecutive_failures_open_circuit:
  assumes "breakerType (configHandlerService s0) = ''consecutive''"
      and "1 \<le> consecutiveFailures (configHandlerService s0)"
      and "handleRequests (setupBreaker s0) (before @ calls) = (rs, s')"
      and "int (length calls) = consecutiveFailures (configHandlerService s0)"
      and "list_all failed (drop (length before) rs)"
  shows "(\<exists>t0. state (breaker s') = Open t0 \<and>
            (before = [] \<or> \<not> failed (last (take (length before) rs)) \<longrightarrow>
               property (last rs) ''time'' = JNumber t0) \<and>
            (\<forall>url env. now env - t0 < resetDuration (configHandlerService s0) \<longrightarrow>
               property (fst (handleRequest s' url env)) ''type'' = JLogType CB_OPEN \<and>
               filter is_Get (snd (snd (handleRequest s' url env))) = []) \<and>
            (\<forall>url env. resetDuration (configHandlerService s0) \<le> now env - t0 \<longrightarrow>
               filter is_Get (snd (snd (handleRequest s' url env))) = [Get url] \<and>
               fst (handleRequest_try s' url env) =
                 fst (handleTimeout (configHandlerService s0) url (reply env)))) \<and>
         (\<forall>s1 url env n k.
            policy (breaker s1) = ConsecutiveBreaker n k \<and>
            \<not> failed (fst (handleRequest s1 url env)) \<longrightarrow>
            policy (breaker (fst (snd (handleRequest s1 url env)))) = ConsecutiveBreaker n 0 \<and>
            state (breaker (fst (snd (handleRequest s1 url env)))) = Closed)"
proof -
  let ?R = "resetDuration (configHandlerService s0)"
  let ?N = "consecutiveFailures (configHandlerService s0)"
  let ?fresh = "\<lparr>halfOpenAfter = ?R, policy = ConsecutiveBreaker ?N 0, state = Closed\<rparr>"
  have b0: "breaker (setupBreaker s0) = ?fresh"
    using assms(1)
    by (simp add: setupBreaker_def circuitBreaker_def new_ConsecutiveBreaker_def Let_def)
  have i0: "consecutive_inv ?R ?N (breaker (setupBreaker s0))"
    using assms(2) by (simp add: b0 consecutive_inv_def)
  obtain rs1 s1 where h1: "handleRequests (setupBreaker s0) before = (rs1, s1)"
    by (cases "handleRequests (setupBreaker s0) before")
  obtain rs2 where h2: "handleRequests s1 calls = (rs2, s')" and rs: "rs = rs1 @ rs2"
    using assms(3) by (auto simp: handleRequests_append h1 split: prod.splits)
  have len: "length rs1 = length before" by (rule handleRequests_length [OF h1])
  have f2: "list_all failed rs2" using assms(5) rs len by simp
  have i1: "consecutive_inv ?R ?N (breaker s1)" by (rule inv_handleRequests [OF i0 h1])
  have i2: "consecutive_inv ?R ?N (breaker s')" by (rule inv_handleRequests [OF i1 h2])
  from failures_open [OF i1 h2 f2 assms(4)] obtain t0 where
    t0: "state (breaker s') = Open t0" by blast
  have ne: "calls \<noteq> []" using assms(2,4) by auto
  then have ne2: "rs2 \<noteq> []" using handleRequests_length [OF h2] by auto
  have opened: "property (last rs) ''time'' = JNumber t0"
    if "before = [] \<or> \<not> failed (last (take (length before) rs))"
  proof -
    have "breaker s1 = ?fresh"
    proof (cases "before = []")
      case True
      with h1 b0 show ?thesis by simp
    next
      case False
      with that have "\<not> failed (last rs1)" using rs len by simp
      from after_success [OF i0 h1 False this] show ?thesis .
    qed
    from closed_failures [OF this _ ne h2 f2] assms(4) obtain t where
      "property (last rs2) ''time'' = JNumber t"
      "breaker s' = \<lparr>halfOpenAfter = ?R, policy = ConsecutiveBreaker ?N ?N, state = Open t\<rparr>"
      by auto
    with t0 ne2 rs show ?thesis by simp
  qed
  have rej: "property (fst (handleRequest s' url env)) ''type'' = JLogType CB_OPEN \<and>
      filter is_Get (snd (snd (handleRequest s' url env))) = []"
    if "now env - t0 < ?R" for url env
  proof -
    have "halfOpenAfter (breaker s') = ?R" using i2 by (simp add: consecutive_inv_def)
    with that have "now env - t0 < halfOpenAfter (breaker s')" by simp
    from open_rejects [OF t0 this] show ?thesis .
  qed
  have probe: "filter is_Get (snd (snd (handleRequest s' url env))) = [Get url] \<and>
      fst (handleRequest_try s' url env) =
        fst (handleTimeout (configHandlerService s0) url (reply env))"
    if "?R \<le> now env - t0" for url env
  proof -
    have "halfOpenAfter (breaker s') = ?R" using i2 by (simp add: consecutive_inv_def)
    with that have "\<not> now env - t0 < halfOpenAfter (breaker s')" by simp
    from open_probe [OF t0 this, of url] show ?thesis
      using handleRequests_config [OF h2] handleRequests_config [OF h1]
      by (simp add: setupBreaker_config)
  qed
  from t0 opened rej probe success_resets show ?thesis by blast
qed

text \<open>
  The threshold is 2 and the reset duration 1000 ms. A failure and a success are
  followed by two failures, the second at 70 ms: the circuit opens at 70 ms, and a call
  at 1069 ms, one millisecond before the reset timer runs out, is rejected without a GET
  request, while a call at 5000 ms is let through. The success, the second call, has set
  the count from 1 to 0.
\<close>

theorem consecutive_failures_open_circuit_witness:
  "list_all failed (drop 2 (fst (handleRequests (new_AppService example_config)
      failure_success_two_failures))) \<and>
   \<not> failed (last (take 2 (fst (handleRequests (new_AppService example_config)
      failure_success_two_failures)))) \<and>
   state (breaker (snd (handleRequests (new_AppService example_config)
      failure_success_two_failures))) = Open 70 \<and>
   property (last (fst (handleRequests (new_AppService example_config)
      failure_success_two_failures))) ''time'' = JNumber 70 \<and>
   property (fst (handleRequest (snd (handleRequests (new_AppService example_config)
      failure_success_two_failures)) ''/balance'' (answered_call 1069))) ''type'' =
     JLogType CB_OPEN \<and>
   filter is_Get (snd (snd (handleRequest (snd (handleRequests (new_AppService example_config)
      failure_success_two_failures)) ''/balance'' (answered_call 1069)))) = [] \<and>
   filter is_Get (snd (snd (handleRequest (snd (handleRequests (new_AppService example_config)
      failure_success_two_failures)) ''/balance'' (answered_call 5000)))) = [Get ''/balance''] \<and>
   policy (breaker (fst (snd (handleRequest
      (fst (snd (handleRequest (new_AppService example_config) ''/balance'' (failing_call 0))))
      ''/balance'' (answered_call 20))))) = ConsecutiveBreaker 2 0"
proof -
  let ?s = "new_AppService example_config"
  let ?before = "[(''/balance'', failing_call 0), (''/balance'', answered_call 20)]"
  let ?calls = "[(''/balance'', failing_call 40), (''/balance'', failing_call 60)]"
  let ?rs = "fst (handleRequests ?s failure_success_two_failures)"
  let ?s' = "snd (handleRequests ?s failure_success_two_failures)"
  let ?s1 = "fst (snd (handleRequest ?s ''/balance'' (failing_call 0)))"
  have 1: "breakerType (configHandlerService ?s) = ''consecutive''" by code_simp
  have 2: "1 \<le> consecutiveFailures (configHandlerService ?s)" by code_simp
  have "setupBreaker ?s = ?s"
    by (simp add: new_AppService_def setupBreaker_def Let_def)
  moreover have "?before @ ?calls = failure_success_two_failures"
    by (simp add: failure_success_two_failures_def)
  ultimately have 3: "handleRequests (setupBreaker ?s) (?before @ ?calls) = (?rs, ?s')"
    by simp
  have 4: "int (length ?calls) = consecutiveFailures (configHandlerService ?s)" by code_simp
  have 5: "list_all failed (drop 2 ?rs)" by code_simp
  have 6: "\<not> failed (last (take 2 ?rs))" by code_simp
  have len: "length ?before = 2" by simp
  have 7: "state (breaker ?s') = Open 70" by code_simp
  have 8: "now (answered_call 1069) - 70 < resetDuration (configHandlerService ?s)"
    by code_simp
  have 9: "policy (breaker ?s1) = ConsecutiveBreaker 2 1" by code_simp
  have 10: "\<not> failed (fst (handleRequest ?s1 ''/balance'' (answered_call 20)))" by code_simp
  note main = consecutive_failures_open_circuit [OF 1 2 3 4 5 [folded len]]
  from main obtain t0 where
    t0: "state (breaker ?s') = Open t0"
    and stamp: "?before = [] \<or> \<not> failed (last (take (length ?before) ?rs)) \<longrightarrow>
          property (last ?rs) ''time'' = JNumber t0"
    and rej: "\<forall>url env. now env - t0 < resetDuration (configHandlerService ?s) \<longrightarrow>
          property (fst (handleRequest ?s' url env)) ''type'' = JLogType CB_OPEN \<and>
          filter is_Get (snd (snd (handleRequest ?s' url env))) = []"
    and probe: "\<forall>url env. resetDuration (configHandlerService ?s) \<le> now env - t0 \<longrightarrow>
          filter is_Get (snd (snd (handleRequest ?s' url env))) = [Get url] \<and>
          fst (handleRequest_try ?s' url env) =
            fst (handleTimeout (configHandlerService ?s) url (reply env))"
    by (elim conjE exE)
  from t0 7 have t70: "t0 = 70" by simp
  from stamp [THEN mp, OF disjI2, OF 6 [folded len]]
  have a: "property (last ?rs) ''time'' = JNumber 70"
    unfolding t70 .
  from rej [rule_format, of "answered_call 1069" "''/balance''"] 8
  have b: "property (fst (handleRequest ?s' ''/balance'' (answered_call 1069))) ''type'' =
        JLogType CB_OPEN"
      "filter is_Get (snd (snd (handleRequest ?s' ''/balance'' (answered_call 1069)))) = []"
    unfolding t70 by simp_all
  have 11: "resetDuration (configHandlerService ?s) \<le> now (answered_call 5000) - 70"
    by code_simp
  from probe [rule_format, of "answered_call 5000" "''/balance''"] 11
  have p: "filter is_Get (snd (snd (handleRequest ?s' ''/balance'' (answered_call 5000)))) =
      [Get ''/balance'']"
    unfolding t70 by simp
  from main [THEN conjunct2, rule_format, of ?s1 2 1 "''/balance''" "answered_call 20"] 9 10
  have c: "policy (breaker (fst (snd (handleRequest ?s1 ''/balance'' (answered_call 20))))) =
      ConsecutiveBreaker 2 0"
    by simp
  show ?thesis by (intro conjI 5 6 7 a b p c)
qed

subsection \<open>C2: the classification of a failed call\<close>

text \<open>
  C2: whenever the call through the breaker is rejected, with whatever error \<open>e\<close>,
  \<^verbatim>\<open>handleRequest\<close> resolves (it does not reject) with a log object of six fields
  that is not the success object, and the type of the log is \<^verbatim>\<open>CB_OPEN\<close> exactly when
  \<open>e\<close> is a \<^verbatim>\<open>BrokenCircuitError\<close>, \<^verbatim>\<open>TIMEOUT\<close> exactly when it is a
  \<^verbatim>\<open>TaskCancelledError\<close>, and \<^verbatim>\<open>ERROR\<close> exactly when it is any other error.
\<close>

theorem handleRequest_classifies_failure:
  assumes "fst (handleRequest_try s url env) = (t, Rejected e)"
  shows "keys (fst (handleRequest s url env)) =
           [''type'', ''time'', ''message'', ''source'', ''detector'', ''data''] \<and>
         failed (fst (handleRequest s url env)) \<and>
         (property (fst (handleRequest s url env)) ''type'' = JLogType CB_OPEN) =
           (e = BrokenCircuitError) \<and>
         (property (fst (handleRequest s url env)) ''type'' = JLogType TIMEOUT) =
           (e = TaskCancelledError) \<and>
         (property (fst (handleRequest s url env)) ''type'' = JLogType ERROR) =
           (\<exists>m. e = OtherError m)"
  using assms Rejected_is_failed [OF assms]
  by (cases e) (simp_all add: handleRequest_Rejected handleRequest_log_type handleRequest_log_keys)

text \<open>
  One call of each kind: the database service refuses the connection, it never answers,
  the circuit is open.
\<close>

theorem handleRequest_classifies_failure_witness:
  "fst (handleRequest_try (new_AppService example_config) ''/balance'' (failing_call 0)) =
     (10, Rejected (OtherError ''connect ECONNREFUSED'')) \<and>
   property (fst (handleRequest (new_AppService example_config) ''/balance'' (failing_call 0)))
     ''type'' = JLogType ERROR \<and>
   fst (handleRequest_try (new_AppService example_config) ''/balance'' (unanswered_call 0)) =
     (500, Rejected TaskCancelledError) \<and>
   property (fst (handleRequest (new_AppService example_config) ''/balance'' (unanswered_call 0)))
     ''type'' = JLogType TIMEOUT \<and>
   fst (handleRequest_try (after_two_failures example_config) ''/balance'' (answered_call 40)) =
     (0, Rejected BrokenCircuitError) \<and>
   property (fst (handleRequest (after_two_failures example_config) ''/balance'' (answered_call 40)))
     ''type'' = JLogType CB_OPEN"
proof -
  have 1: "fst (handleRequest_try (new_AppService example_config) ''/balance'' (failing_call 0)) =
     (10, Rejected (OtherError ''connect ECONNREFUSED''))"
    by (simp add: example_defs)
  have 2: "fst (handleRequest_try (new_AppService example_config) ''/balance'' (unanswered_call 0)) =
     (500, Rejected TaskCancelledError)"
    by (simp add: example_defs)
  have 3: "fst (handleRequest_try (after_two_failures example_config) ''/balance'' (answered_call 40)) =
     (0, Rejected BrokenCircuitError)"
    by (simp add: example_defs)
  from handleRequest_classifies_failure [OF 1] handleRequest_classifies_failure [OF 2]
    handleRequest_classifies_failure [OF 3] 1 2 3
  show ?thesis by simp
qed

subsection \<open>C3: when the sampling breaker opens the circuit\<close>



subsection \<open>C4: rebuilding the breaker\<close>

text \<open>
  C4 as stated does not hold: \<^verbatim>\<open>setupBreaker\<close> compares nothing. Run on a service whose
  circuit is open after two failures, with the configuration left as it is, it replaces
  the breaker by a closed one with a count of 0.
\<close>

theorem setupBreaker_same_config_resets:
  "configHandlerService (setupBreaker (after_two_failures example_config)) =
     configHandlerService (after_two_failures example_config) \<and>
   breaker (after_two_failures example_config) =
     \<lparr>halfOpenAfter = 1000, policy = ConsecutiveBreaker 2 2, state = Open 30\<rparr> \<and>
   breaker (setupBreaker (after_two_failures example_config)) =
     \<lparr>halfOpenAfter = 1000, policy = ConsecutiveBreaker 2 0, state = Closed\<rparr> \<and>
   breaker (setupBreaker (after_two_failures example_config)) \<noteq>
     breaker (after_two_failures example_config)"
  by (simp add: example_defs)

text \<open>
  C4, amended: every run of \<^verbatim>\<open>setupBreaker\<close> rebuilds the breaker and discards what the
  previous one had counted, whether the configuration has changed or not: the breaker
  afterwards is the one a newly constructed service has with the current
  configuration, it does not depend on the breaker before, its circuit is closed, and
  the configuration is left as it is.
\<close>

theorem setupBreaker_always_rebuilds:
  "breaker (setupBreaker s) = breaker (new_AppService (configHandlerService s)) \<and>
   setupBreaker (s\<lparr>breaker := b\<rparr>) = setupBreaker s \<and>
   state (breaker (setupBreaker s)) = Closed \<and>
   configHandlerService (setupBreaker s) = configHandlerService s"
  by (simp add: setupBreaker_def new_AppService_def circuitBreaker_def Let_def)

subsection \<open>C5: a call answered in time\<close>

text \<open>
  C5: if the GET request of a call is sent and the database service answers it with a
  response before \<^verbatim>\<open>timeoutDuration\<close> has passed, then \<^verbatim>\<open>handleTimeout\<close> resolves with
  the \<^verbatim>\<open>data\<close> of the response, and \<^verbatim>\<open>handleRequest\<close> resolves with the success object
  whose \<^verbatim>\<open>result\<close> is that same \<^verbatim>\<open>data\<close>.
\<close>

theorem handleRequest_returns_payload:
  assumes "Get url \<in> set (snd (snd (handleRequest s url env)))"
      and "reply env = Some (t, Resolved send)"
      and "t < timeoutDuration (configHandlerService s)"
  shows "fst (handleTimeout (configHandlerService s) url (reply env)) =
           (t, Resolved (data send)) \<and>
         fst (handleRequest s url env) =
           JObject [(''type'', JString ''Success''),
                    (''message'', JString ''Request to database was successful''),
                    (''result'', data send)]"
proof -
  have "Get url \<in> set (filter is_Get (snd (snd (handleRequest s url env))))"
    using assms(1) by simp
  then have "fst (snd (handleRequest_try s url env)) \<noteq> []"
    unfolding handleRequest_Gets by auto
  then have "\<exists>p. handleRequest_try s url env =
      let_through (breaker s) p (now env)
        (handleTimeout (configHandlerService s) url (reply env))"
    using execute_cases [of "breaker s" "now env"
        "handleTimeout (configHandlerService s) url (reply env)"]
    by (auto simp: handleRequest_try_def)
  then have "fst (handleRequest_try s url env) =
      fst (handleTimeout (configHandlerService s) url (reply env))"
    by (auto simp: let_through_result)
  moreover have ht: "fst (handleTimeout (configHandlerService s) url (reply env)) =
      (t, Resolved (data send))"
    using assms(2,3) by (simp add: handleTimeout_in_time)
  ultimately have "fst (handleRequest_try s url env) = (t, Resolved (data send))" by simp
  then show ?thesis using ht by (simp add: handleRequest_Resolved)
qed

theorem handleRequest_returns_payload_witness:
  "Get ''/balance'' \<in>
     set (snd (snd (handleRequest (new_AppService example_config) ''/balance'' (answered_call 0)))) \<and>
   reply (answered_call 0) = Some (10, Resolved \<lparr>status = 200, data = JNumber 42\<rparr>) \<and>
   10 < timeoutDuration (configHandlerService (new_AppService example_config)) \<and>
   fst (handleRequest (new_AppService example_config) ''/balance'' (answered_call 0)) =
     JObject [(''type'', JString ''Success''),
              (''message'', JString ''Request to database was successful''),
              (''result'', JNumber 42)]"
proof -
  have 1: "Get ''/balance'' \<in>
     set (snd (snd (handleRequest (new_AppService example_config) ''/balance'' (answered_call 0))))"
    by (simp add: example_defs)
  have 2: "reply (answered_call 0) = Some (10, Resolved \<lparr>status = 200, data = JNumber 42\<rparr>)"
    by (simp add: example_defs)
  have 3: "10 < timeoutDuration (configHandlerService (new_AppService example_config))"
    by (simp add: example_defs)
  from handleRequest_returns_payload [OF 1 2 3] 1 2 3 show ?thesis by simp
qed

subsection \<open>C6: the monitor is out of reach\<close>

text \<open>
  C6: whether the monitor accepts the report or not makes no difference to what
  \<^verbatim>\<open>handleRequest\<close> resolves with, to the service afterwards, or to the GET requests
  sent, of which there is at most one per call; and when a report is posted to a monitor
  that is out of reach, the line "Monitor at ... not available" is printed.
\<close>

theorem monitor_outage_is_swallowed:
  "fst (handleRequest s url (env\<lparr>monitorUp := False\<rparr>)) =
     fst (handleRequest s url (env\<lparr>monitorUp := True\<rparr>)) \<and>
   fst (snd (handleRequest s url (env\<lparr>monitorUp := False\<rparr>))) =
     fst (snd (handleRequest s url (env\<lparr>monitorUp := True\<rparr>))) \<and>
   filter is_Get (snd (snd (handleRequest s url (env\<lparr>monitorUp := False\<rparr>)))) =
     filter is_Get (snd (snd (handleRequest s url (env\<lparr>monitorUp := True\<rparr>)))) \<and>
   length (filter is_Get (snd (snd (handleRequest s url (env\<lparr>monitorUp := False\<rparr>))))) \<le> 1 \<and>
   (filter is_Post (snd (snd (handleRequest s url (env\<lparr>monitorUp := False\<rparr>)))) = [] \<or>
    ConsoleLog (''Monitor at '' @ monitorUrl (configHandlerService s) @ '' not available'')
      \<in> set (snd (snd (handleRequest s url (env\<lparr>monitorUp := False\<rparr>)))))"
proof -
  let ?down = "env\<lparr>monitorUp := False\<rparr>" and ?up = "env\<lparr>monitorUp := True\<rparr>"
  have same: "fst (handleRequest s url ?down) = fst (handleRequest s url ?up) \<and>
      fst (snd (handleRequest s url ?down)) = fst (snd (handleRequest s url ?up))"
    by (rule handleRequest_by_try) (simp_all add: try_monitorUp)
  have gets: "filter is_Get (snd (snd (handleRequest s url ?down))) =
      filter is_Get (snd (snd (handleRequest s url ?up)))"
    by (simp add: handleRequest_Gets try_monitorUp)
  have one: "length (filter is_Get (snd (snd (handleRequest s url ?down)))) \<le> 1"
    using try_Gets [of s url ?down] by (simp only: handleRequest_Gets)
  have logged: "filter is_Post (snd (snd (handleRequest s url ?down))) = [] \<or>
      ConsoleLog (''Monitor at '' @ monitorUrl (configHandlerService s) @ '' not available'')
        \<in> set (snd (snd (handleRequest s url ?down)))"
  proof -
    obtain t r where tr: "fst (handleRequest_try s url ?down) = (t, r)"
      using try_settles by blast
    show ?thesis
    proof (cases r)
      case (Resolved d)
      have "filter is_Post (fst (snd (handleRequest_try s url ?down))) = []"
        using try_no_Post [of _ s url ?down] by (auto simp: filter_empty_conv)
      then show ?thesis
        using handleRequest_Resolved [OF tr [unfolded Resolved]] by simp
    next
      case (Rejected e)
      show ?thesis
        using handleRequest_Rejected [OF tr [unfolded Rejected]] by (simp add: sendError_def)
    qed
  qed
  from same gets one logged show ?thesis by blast
qed

subsection \<open>C7: the shape of a failure event\<close>

text \<open>
  C7 as stated does not hold of every event: the earlier revision of the service, whose
  \<^verbatim>\<open>sendError\<close> (lines 240-253) the claim names, posts an object with the fields
  \<^verbatim>\<open>type\<close>, \<^verbatim>\<open>time\<close>, \<^verbatim>\<open>source\<close>, \<^verbatim>\<open>target\<close> and \<^verbatim>\<open>message\<close>: there is no
  \<^verbatim>\<open>detector\<close> and no \<^verbatim>\<open>data\<close>. Here its \<^verbatim>\<open>catch\<close> block handles a
  \<^verbatim>\<open>BrokenCircuitError\<close> at 30 ms.
\<close>

theorem earlier_revision_event_has_other_fields:
  "Post ''http://localhost:3400''
     (fst (handleRequest_v0_catch example_config_v0 30 True BrokenCircuitError))
     \<in> set (snd (handleRequest_v0_catch example_config_v0 30 True BrokenCircuitError)) \<and>
   keys (fst (handleRequest_v0_catch example_config_v0 30 True BrokenCircuitError)) =
     [''type'', ''time'', ''source'', ''target'', ''message''] \<and>
   keys (fst (handleRequest_v0_catch example_config_v0 30 True BrokenCircuitError)) \<noteq>
     [''type'', ''time'', ''message'', ''source'', ''detector'', ''data'']"
  by (simp add: handleRequest_v0_catch_def sendError_v0_def example_config_v0_def Let_def)

text \<open>
  C7, amended: every object posted to the monitor by \<^verbatim>\<open>handleRequest\<close> of the current
  revision (lines 92-142) has exactly the fields \<^verbatim>\<open>type\<close>, \<^verbatim>\<open>time\<close>, \<^verbatim>\<open>message\<close>,
  \<^verbatim>\<open>source\<close>, \<^verbatim>\<open>detector\<close> and \<^verbatim>\<open>data\<close>, and its \<^verbatim>\<open>type\<close> is one of \<^verbatim>\<open>CB_OPEN\<close>,
  \<^verbatim>\<open>TIMEOUT\<close> and \<^verbatim>\<open>ERROR\<close>. Every object posted by the \<^verbatim>\<open>catch\<close> block of the
  earlier revision (lines 271-279) has exactly the fields \<^verbatim>\<open>type\<close>, \<^verbatim>\<open>time\<close>,
  \<^verbatim>\<open>source\<close>, \<^verbatim>\<open>target\<close> and \<^verbatim>\<open>message\<close>, with a \<^verbatim>\<open>type\<close> among the same three.
\<close>

theorem failure_event_shape:
  assumes "Post u ev \<in> set (snd (snd (handleRequest s url env)))"
  shows "keys ev = [''type'', ''time'', ''message'', ''source'', ''detector'', ''data''] \<and>
         property ev ''type'' \<in> {JLogType CB_OPEN, JLogType TIMEOUT, JLogType ERROR} \<and>
         (\<forall>u0 ev0 c t0 up e0.
            Post u0 ev0 \<in> set (snd (handleRequest_v0_catch c t0 up e0)) \<longrightarrow>
            keys ev0 = [''type'', ''time'', ''source'', ''target'', ''message''] \<and>
            property ev0 ''type'' \<in> {JLogType CB_OPEN, JLogType TIMEOUT, JLogType ERROR})"
proof -
  from posted_is_log [OF assms] obtain t e where
    ev: "ev = handleRequest_log (configHandlerService s) (now env + t) e" by blast
  have current: "keys ev = [''type'', ''time'', ''message'', ''source'', ''detector'', ''data''] \<and>
      property ev ''type'' \<in> {JLogType CB_OPEN, JLogType TIMEOUT, JLogType ERROR}"
    by (cases e) (simp_all add: ev handleRequest_log_keys handleRequest_log_type)
  have earlier: "keys ev0 = [''type'', ''time'', ''source'', ''target'', ''message''] \<and>
      property ev0 ''type'' \<in> {JLogType CB_OPEN, JLogType TIMEOUT, JLogType ERROR}"
    if "Post u0 ev0 \<in> set (snd (handleRequest_v0_catch c t0 up e0))" for u0 ev0 c t0 up e0
    using that by (auto simp: handleRequest_v0_catch_def sendError_v0_def Let_def split: if_splits)
  from current earlier show ?thesis by blast
qed

text \<open>
  A call the database service never answers, in the current revision, and the same
  error in the \<^verbatim>\<open>catch\<close> block of the earlier one.
\<close>

theorem failure_event_shape_witness:
  "Post ''http://localhost:3400''
     (fst (handleRequest (new_AppService example_config) ''/balance'' (unanswered_call 0)))
     \<in> set (snd (snd (handleRequest (new_AppService example_config) ''/balance''
                        (unanswered_call 0)))) \<and>
   keys (fst (handleRequest (new_AppService example_config) ''/balance'' (unanswered_call 0))) =
     [''type'', ''time'', ''message'', ''source'', ''detector'', ''data''] \<and>
   property (fst (handleRequest (new_AppService example_config) ''/balance'' (unanswered_call 0)))
     ''type'' \<in> {JLogType CB_OPEN, JLogType TIMEOUT, JLogType ERROR} \<and>
   Post ''http://localhost:3400''
     (fst (handleRequest_v0_catch example_config_v0 500 False TaskCancelledError))
     \<in> set (snd (handleRequest_v0_catch example_config_v0 500 False TaskCancelledError)) \<and>
   keys (fst (handleRequest_v0_catch example_config_v0 500 False TaskCancelledError)) =
     [''type'', ''time'', ''source'', ''target'', ''message'']"
proof -
  let ?ev0 = "fst (handleRequest_v0_catch example_config_v0 500 False TaskCancelledError)"
  have 1: "Post ''http://localhost:3400''
     (fst (handleRequest (new_AppService example_config) ''/balance'' (unanswered_call 0)))
     \<in> set (snd (snd (handleRequest (new_AppService example_config) ''/balance''
                        (unanswered_call 0))))"
    by (simp add: example_defs)
  have 2: "Post ''http://localhost:3400'' ?ev0
     \<in> set (snd (handleRequest_v0_catch example_config_v0 500 False TaskCancelledError))"
    by (simp add: handleRequest_v0_catch_def sendError_v0_def example_config_v0_def Let_def)
  note main = failure_event_shape [OF 1]
  from main [THEN conjunct2, THEN conjunct2, rule_format, OF 2]
  have 3: "keys ?ev0 = [''type'', ''time'', ''source'', ''target'', ''message'']"
    by (rule conjunct1)
  from main have 4: "keys (fst (handleRequest (new_AppService example_config) ''/balance''
        (unanswered_call 0))) = [''type'', ''time'', ''message'', ''source'', ''detector'', ''data'']"
    by (rule conjunct1)
  from main have 5: "property (fst (handleRequest (new_AppService example_config) ''/balance''
        (unanswered_call 0))) ''type'' \<in> {JLogType CB_OPEN, JLogType TIMEOUT, JLogType ERROR}"
    by (elim conjE)
  show ?thesis by (intro conjI 1 4 5 2 3)
qed

subsection \<open>C8: the data of a CB_OPEN event\<close>

text \<open>
  C8: every event of type \<^verbatim>\<open>CB_OPEN\<close> that \<^verbatim>\<open>handleRequest\<close> posts carries, in its
  \<^verbatim>\<open>data\<close>, \<^verbatim>\<open>failedResponses\<close> equal to \<^verbatim>\<open>consecutiveFailures\<close> and \<^verbatim>\<open>openTime\<close> equal
  to \<^verbatim>\<open>resetDuration\<close> of the configuration, whatever the \<^verbatim>\<open>breakerType\<close> is.
\<close>

theorem cb_open_event_data:
  assumes "Post u ev \<in> set (snd (snd (handleRequest s url env)))"
      and "property ev ''type'' = JLogType CB_OPEN"
  shows "property (property ev ''data'') ''failedResponses'' =
           JNumber (consecutiveFailures (configHandlerService s)) \<and>
         property (property ev ''data'') ''openTime'' =
           JNumber (resetDuration (configHandlerService s))"
proof -
  from posted_is_log [OF assms(1)] obtain t e where
    ev: "ev = handleRequest_log (configHandlerService s) (now env + t) e" by blast
  with assms(2) have "e = BrokenCircuitError"
    by (simp add: handleRequest_log_type split: if_splits)
  with ev show ?thesis by (simp add: handleRequest_log_def)
qed

text \<open>
  With the sampling breaker of the example (a minimum of 10 records, a threshold of 1/2):
  ten calls in a row fail, the tenth at 190 ms, and the window of ten failures opens the
  circuit. The call made at 200 ms is rejected, and its event reports the
  \<^verbatim>\<open>consecutiveFailures\<close> of the configuration, 2, a parameter the sampling breaker was
  not built with.
\<close>

theorem cb_open_event_data_witness:
  "breaker (snd (handleRequests (new_AppService sampling_config) ten_failures)) =
     \<lparr>halfOpenAfter = 1000,
      policy = SamplingBreaker (1 / 2) 10000 10
        [(10, False), (30, False), (50, False), (70, False), (90, False),
         (110, False), (130, False), (150, False), (170, False), (190, False)],
      state = Open 190\<rparr> \<and>
   Post ''http://localhost:3400''
     (fst (handleRequest (snd (handleRequests (new_AppService sampling_config) ten_failures))
        ''/balance'' (answered_call 200)))
     \<in> set (snd (snd (handleRequest
          (snd (handleRequests (new_AppService sampling_config) ten_failures))
          ''/balance'' (answered_call 200)))) \<and>
   property (fst (handleRequest (snd (handleRequests (new_AppService sampling_config) ten_failures))
        ''/balance'' (answered_call 200))) ''type'' = JLogType CB_OPEN \<and>
   property (property (fst (handleRequest
        (snd (handleRequests (new_AppService sampling_config) ten_failures))
        ''/balance'' (answered_call 200))) ''data'') ''failedResponses'' = JNumber 2 \<and>
   property (property (fst (handleRequest
        (snd (handleRequests (new_AppService sampling_config) ten_failures))
        ''/balance'' (answered_call 200))) ''data'') ''openTime'' = JNumber 1000"
proof -
  let ?s = "snd (handleRequests (new_AppService sampling_config) ten_failures)"
  let ?r = "handleRequest ?s ''/balance'' (answered_call 200)"
  have 0: "breaker ?s =
     \<lparr>halfOpenAfter = 1000,
      policy = SamplingBreaker (1 / 2) 10000 10
        [(10, False), (30, False), (50, False), (70, False), (90, False),
         (110, False), (130, False), (150, False), (170, False), (190, False)],
      state = Open 190\<rparr>"
    by code_simp
  have 1: "Post ''http://localhost:3400'' (fst ?r) \<in> set (snd (snd ?r))"
    by code_simp
  have 2: "property (fst ?r) ''type'' = JLogType CB_OPEN"
    by code_simp
  have 3: "consecutiveFailures (configHandlerService ?s) = 2" by code_simp
  have 4: "resetDuration (configHandlerService ?s) = 1000" by code_simp
  from cb_open_event_data [OF 1 2]
  have 5: "property (property (fst ?r) ''data'') ''failedResponses'' = JNumber 2"
    and 6: "property (property (fst ?r) ''data'') ''openTime'' = JNumber 1000"
    unfolding 3 4 by simp_all
  show ?thesis by (intro conjI 0 1 2 5 6)
qed

subsection \<open>C9: what a failed call resolves with\<close>

text \<open>
  C9: when the call through the breaker is rejected, exactly one object is posted, to
  the monitor's address, and it is the value \<^verbatim>\<open>handleRequest\<close> resolves with.
\<close>

theorem handleRequest_returns_sent_log:
  assumes "fst (handleRequest_try s url env) = (t, Rejected e)"
  shows "filter is_Post (snd (snd (handleRequest s url env))) =
           [Post (monitorUrl (configHandlerService s)) (fst (handleRequest s url env))]"
proof -
  have "filter is_Post (fst (snd (handleRequest_try s url env))) = []"
    using try_no_Post [of _ s url env] by (auto simp: filter_empty_conv)
  then show ?thesis using assms by (simp add: handleRequest_Rejected sendError_def)
qed

theorem handleRequest_returns_sent_log_witness:
  "fst (handleRequest_try (new_AppService example_config) ''/balance'' (failing_call 0)) =
     (10, Rejected (OtherError ''connect ECONNREFUSED'')) \<and>
   filter is_Post (snd (snd (handleRequest (new_AppService example_config) ''/balance''
                               (failing_call 0)))) =
     [Post ''http://localhost:3400''
        (fst (handleRequest (new_AppService example_config) ''/balance'' (failing_call 0)))]"
proof -
  have 1: "fst (handleRequest_try (new_AppService example_config) ''/balance'' (failing_call 0)) =
     (10, Rejected (OtherError ''connect ECONNREFUSED''))"
    by (simp add: example_defs)
  have 2: "monitorUrl (configHandlerService (new_AppService example_config)) =
      ''http://localhost:3400''"
    by (simp add: example_defs)
  from handleRequest_returns_sent_log [OF 1] 1 2 show ?thesis by simp
qed

subsection \<open>C10: the status code of a response\<close>

text \<open>
  C10: \<^verbatim>\<open>sendRequest\<close> resolves with the \<^verbatim>\<open>data\<close> of any response, whatever its status,
  and is rejected exactly as the HTTP promise is; apart from the line printed for status
  200 its only effect is the GET request. So the status of a response changes neither
  what \<^verbatim>\<open>handleRequest\<close> resolves with nor the service afterwards.
\<close>

theorem sendRequest_ignores_status:
  "fst (sendRequest url (Some (t, Resolved send))) = Some (t, Resolved (data send)) \<and>
   fst (sendRequest url (Some (t, Rejected e))) = Some (t, Rejected e) \<and>
   filter (\<lambda>x. \<not> is_ConsoleLog x) (snd (sendRequest url (Some (t, Resolved send)))) =
     [Get url] \<and>
   fst (handleRequest s url (env\<lparr>reply := Some (t, Resolved (send\<lparr>status := st\<rparr>))\<rparr>)) =
     fst (handleRequest s url (env\<lparr>reply := Some (t, Resolved send)\<rparr>)) \<and>
   fst (snd (handleRequest s url (env\<lparr>reply := Some (t, Resolved (send\<lparr>status := st\<rparr>))\<rparr>))) =
     fst (snd (handleRequest s url (env\<lparr>reply := Some (t, Resolved send)\<rparr>)))"
proof -
  have 1: "fst (sendRequest url (Some (t, Resolved send))) = Some (t, Resolved (data send))"
    by (simp add: sendRequest_def)
  have 2: "fst (sendRequest url (Some (t, Rejected e))) = Some (t, Rejected e)"
    by (simp add: sendRequest_def)
  have 3: "filter (\<lambda>x. \<not> is_ConsoleLog x) (snd (sendRequest url (Some (t, Resolved send)))) =
      [Get url]"
    by (simp add: sendRequest_def)
  have 4: "fst (handleRequest s url (env\<lparr>reply := Some (t, Resolved (send\<lparr>status := st\<rparr>))\<rparr>)) =
      fst (handleRequest s url (env\<lparr>reply := Some (t, Resolved send)\<rparr>)) \<and>
    fst (snd (handleRequest s url (env\<lparr>reply := Some (t, Resolved (send\<lparr>status := st\<rparr>))\<rparr>))) =
      fst (snd (handleRequest s url (env\<lparr>reply := Some (t, Resolved send)\<rparr>)))"
    by (rule handleRequest_by_try) (simp_all add: try_status)
  from 1 2 3 4 show ?thesis by blast
qed

end
